theory Spec2Isabelle
  imports Main
begin

section \<open>The multi-select combo box: data model\<close>

text \<open>
  The development embeds the root widget of the multi-select combo box
  (\<^verbatim>\<open>MultiComboBox\<close>): its selection toggle, its focused/blurred state, its key, click
  and composition handlers, its layout effect and the attributes of its text entry.

  An item carries a label and a value; a selected item may carry a \<^verbatim>\<open>deletable\<close> flag
  (\<^verbatim>\<open>deletable?: boolean\<close>, so the flag is absent, true or false). A JavaScript object
  handed to the widget is one structural value: a candidate and a selected entry are both
  values of the record below, and the widget only ever reads \<^verbatim>\<open>label\<close>, \<^verbatim>\<open>value\<close> and
  \<^verbatim>\<open>deletable\<close>. The type \<open>'v\<close> stands for what \<^verbatim>\<open>value\<close> holds, as the strict comparison
  \<^verbatim>\<open>===\<close> tells it apart: a primitive by its value, an object by its reference. Equality
  on \<open>'v\<close> is that comparison (the number NaN, which \<^verbatim>\<open>===\<close> does not hold equal to itself,
  is left out).
\<close>

text \<open>
  Modelled from the spec: the declaration of \<^verbatim>\<open>ComboBoxItem\<close> (imported from
  \<^verbatim>\<open>./types\<close>) is not among the sources; the fields are those the spec's data model
  lists and the widget reads, with the optional \<^verbatim>\<open>deletable\<close> of the \<^verbatim>\<open>selectedItems\<close>
  prop.
\<close>

record 'v ComboBoxItem =
  label :: string
  "value" :: 'v
  deletable :: "bool option"

text \<open>
  The props the modelled code reads. \<open>controlledInputValue\<close> is the \<^verbatim>\<open>inputValue\<close> prop
  (\<open>None\<close> for \<^verbatim>\<open>undefined\<close>). A callback prop is optional and every call site is
  guarded (\<^verbatim>\<open>onDelete && onDelete(item)\<close>); the field of a callback says whether the
  host supplied it.
\<close>

record 'v Props =
  selectedItems :: "'v ComboBoxItem list"
  name :: "string option"
  disabled :: bool
  error :: bool
  controlledInputValue :: "string option"
  onChange :: bool
  onChangeInput :: bool
  onDelete :: bool
  onSelect :: bool
  onChangeSelected :: bool
  onFocus :: bool
  onBlur :: bool

text \<open>The three \<^verbatim>\<open>useState\<close> cells of the component.\<close>

record State =
  isFocused :: bool
  uncontrolledInputValue :: string
  isComposing :: bool

definition initialState :: State where
  "initialState = \<lparr>isFocused = False, uncontrolledInputValue = '''', isComposing = False\<rparr>"

text \<open>
  What a handler does, in the order it does it: calls of host callbacks, calls of the
  state setters, calls on the DOM event, and calls into the collaborators whose code is
  not part of the component (the focus coordinator returned by \<^verbatim>\<open>useFocusControl\<close>, the
  key handler returned by \<^verbatim>\<open>useListBox\<close>). \<open>InputFocus\<close> is \<^verbatim>\<open>inputRef.current?.focus()\<close>.
\<close>

datatype 'v effect =
    Call_onChange string
  | Call_onChangeInput string
  | Call_onDelete "'v ComboBoxItem"
  | Call_onSelect "'v ComboBoxItem"
  | Call_onChangeSelected "'v ComboBoxItem list"
  | Call_onFocus
  | Call_onBlur
  | SetIsFocused bool
  | SetUncontrolledInputValue string
  | SetIsComposing bool
  | StopPropagation
  | PreventDefault
  | InputFocus
  | FocusPrevDeletionButton
  | FocusNextDeletionButton
  | ResetDeletionButtonFocus
  | HandleListBoxKeyDown string

text \<open>\<^verbatim>\<open>cb && cb(args)\<close>: the call happens when the callback was supplied.\<close>

definition fire :: "bool \<Rightarrow> 'e \<Rightarrow> 'e list" where
  "fire cb e = (if cb then [e] else [])"

text \<open>
  The state after a handler has run: the setter calls applied in order (none of the
  setters is called with an updater function, so the last value written wins).
\<close>

fun setState :: "State \<Rightarrow> 'v effect \<Rightarrow> State" where
  "setState s (SetIsFocused b) = s\<lparr>isFocused := b\<rparr>"
| "setState s (SetUncontrolledInputValue v) = s\<lparr>uncontrolledInputValue := v\<rparr>"
| "setState s (SetIsComposing b) = s\<lparr>isComposing := b\<rparr>"
| "setState s _ = s"

definition commit :: "State \<Rightarrow> 'v effect list \<Rightarrow> State" where
  "commit s es = foldl setState s es"

section \<open>Selection toggle\<close>

definition handleDelete :: "'v Props \<Rightarrow> 'v ComboBoxItem \<Rightarrow> 'v effect list" where
  "handleDelete p item =
     fire (onDelete p) (Call_onDelete item) @
     fire (onChangeSelected p)
       (Call_onChangeSelected
          (filter (\<lambda>selected. label selected \<noteq> label item \<or> value selected \<noteq> value item)
             (selectedItems p)))"

definition handleSelect :: "'v Props \<Rightarrow> 'v ComboBoxItem \<Rightarrow> 'v effect list" where
  "handleSelect p selected =
     (case find (\<lambda>item. label item = label selected \<and> value item = value selected)
             (selectedItems p) of
        Some matchedSelectedItem \<Rightarrow>
          (if deletable matchedSelectedItem \<noteq> Some False then handleDelete p selected else [])
      | None \<Rightarrow>
          fire (onSelect p) (Call_onSelect selected) @
          fire (onChangeSelected p) (Call_onChangeSelected (selectedItems p @ [selected])))"

text \<open>The arrays a run of effects hands to \<^verbatim>\<open>onChangeSelected\<close>, in order.\<close>

fun onChangeSelectedArgs :: "'v effect list \<Rightarrow> 'v ComboBoxItem list list" where
  "onChangeSelectedArgs [] = []"
| "onChangeSelectedArgs (Call_onChangeSelected xs # es) = xs # onChangeSelectedArgs es"
| "onChangeSelectedArgs (_ # es) = onChangeSelectedArgs es"

section \<open>Focused and blurred\<close>

definition isInputControlled :: "'v Props \<Rightarrow> bool" where
  "isInputControlled p = (controlledInputValue p \<noteq> None)"

definition inputValue :: "'v Props \<Rightarrow> State \<Rightarrow> string" where
  "inputValue p s =
     (case controlledInputValue p of Some v \<Rightarrow> v | None \<Rightarrow> uncontrolledInputValue s)"

definition focus :: "'v Props \<Rightarrow> 'v effect list" where
  "focus p = fire (onFocus p) Call_onFocus @ [SetIsFocused True]"

definition blur :: "'v Props \<Rightarrow> State \<Rightarrow> 'v effect list" where
  "blur p s =
     (if \<not> isFocused s then []
      else fire (onBlur p) Call_onBlur @ [SetIsFocused False, ResetDeletionButtonFocus])"

text \<open>
  The body of the layout effect. The guard \<^verbatim>\<open>isFocused && inputRef.current\<close> before
  \<^verbatim>\<open>inputRef.current.focus()\<close> is the optional call \<open>InputFocus\<close> under \<open>isFocused\<close>.
  The focus event that call may dispatch is handled by the text entry's \<^verbatim>\<open>onFocus\<close> as
  rendered in a focused state, which calls no setter and no callback
  (\<open>Input_onFocus_focused\<close> below).
\<close>

definition layoutEffect :: "'v Props \<Rightarrow> State \<Rightarrow> 'v effect list" where
  "layoutEffect p s =
     (if \<not> isInputControlled p then [SetUncontrolledInputValue ''''] else []) @
     (if isFocused s then [InputFocus] else [])"

text \<open>
  \<^verbatim>\<open>useLayoutEffect(..., [inputRef, isFocused, isInputControlled, selectedItems])\<close>: after
  the first render the body runs; after a later render it runs when a dependency differs
  from the previous render's. The ref object never changes; \<^verbatim>\<open>selectedItems\<close> is compared
  as an object, so whether the host passed another array is an input
  (\<open>selectedItemsReplaced\<close>). \<open>prev\<close> holds the props and state of the previous render.
\<close>

definition useLayoutEffect ::
  "('v Props \<times> State) option \<Rightarrow> bool \<Rightarrow> 'v Props \<Rightarrow> State \<Rightarrow> 'v effect list" where
  "useLayoutEffect prev selectedItemsReplaced p s =
     (case prev of
        None \<Rightarrow> layoutEffect p s
      | Some (p0, s0) \<Rightarrow>
          (if isFocused s0 \<noteq> isFocused s \<or> isInputControlled p0 \<noteq> isInputControlled p
              \<or> selectedItemsReplaced
           then layoutEffect p s else []))"

text \<open>The state once a render has run its layout effect.\<close>

definition rerender ::
  "('v Props \<times> State) option \<Rightarrow> bool \<Rightarrow> 'v Props \<Rightarrow> State \<Rightarrow> State" where
  "rerender prev selectedItemsReplaced p s =
     commit s (useLayoutEffect prev selectedItemsReplaced p s)"

section \<open>Event handlers\<close>

text \<open>The text entry's \<^verbatim>\<open>onFocus\<close> handler.\<close>

definition Input_onFocus :: "'v Props \<Rightarrow> State \<Rightarrow> 'v effect list" where
  "Input_onFocus p s = [ResetDeletionButtonFocus] @ (if \<not> isFocused s then focus p else [])"

text \<open>
  The container's key handler: the calls its own code makes, in order. What the browser
  runs from inside the call \<open>InputFocus\<close> is added where the event is delivered
  (\<open>onKeyDown\<close> below).
\<close>

definition handleKeyDown :: "'v Props \<Rightarrow> State \<Rightarrow> string \<Rightarrow> 'v effect list" where
  "handleKeyDown p s key =
     (if isComposing s then []
      else
        (if key = ''Escape'' \<or> key = ''Esc'' then [StopPropagation] @ blur p s
         else if key = ''Tab'' then (if isFocused s then [InputFocus] else []) @ blur p s
         else if key = ''Left'' \<or> key = ''ArrowLeft'' then
           [StopPropagation, FocusPrevDeletionButton]
         else if key = ''Right'' \<or> key = ''ArrowRight'' then
           [StopPropagation, FocusNextDeletionButton]
         else [StopPropagation, InputFocus, ResetDeletionButtonFocus])
        @ [HandleListBoxKeyDown key])"

definition handleInputKeyDown :: "string \<Rightarrow> 'v effect list" where
  "handleInputKeyDown key =
     (if key = ''Down'' \<or> key = ''ArrowDown'' \<or> key = ''Up'' \<or> key = ''ArrowUp''
      then [PreventDefault] else [])"

text \<open>
  \<^verbatim>\<open>inputRef.current?.focus()\<close> on a text entry that does not hold the focus makes the
  browser dispatch its focus event before the call returns, so the calls \<open>h\<close> of the
  entry's \<^verbatim>\<open>onFocus\<close> handler run right after the first \<open>InputFocus\<close>; from then on the
  entry holds the focus and a further call dispatches nothing.
\<close>

fun dispatchFocus :: "'v effect list \<Rightarrow> 'v effect list \<Rightarrow> 'v effect list" where
  "dispatchFocus h [] = []"
| "dispatchFocus h (InputFocus # es) = InputFocus # h @ es"
| "dispatchFocus h (e # es) = e # dispatchFocus h es"

text \<open>
  The delivery of a key event. It reaches \<open>handleInputKeyDown\<close> first when its target is
  the text entry, and then bubbles to the container's \<open>handleKeyDown\<close>. A key event goes
  to the element that holds the focus: when the target is the text entry the entry holds
  it already, and a disabled entry cannot take it; otherwise a call of \<open>InputFocus\<close>
  runs \<open>Input_onFocus\<close>, as rendered with the state \<open>s\<close>.
\<close>

definition onKeyDown :: "'v Props \<Rightarrow> State \<Rightarrow> bool \<Rightarrow> string \<Rightarrow> 'v effect list" where
  "onKeyDown p s targetIsInput key =
     (if targetIsInput then handleInputKeyDown key else []) @
     dispatchFocus (if targetIsInput \<or> disabled p then [] else Input_onFocus p s)
       (handleKeyDown p s key)"

text \<open>
  The container's click handler. \<open>inDeleteButton\<close> is the result of
  \<^verbatim>\<open>hasParentElementByClassName(e.target, classNames.deleteButton)\<close>, a helper that is not
  part of the component.
\<close>

definition Container_onClick :: "'v Props \<Rightarrow> State \<Rightarrow> bool \<Rightarrow> 'v effect list" where
  "Container_onClick p s inDeleteButton =
     (if \<not> inDeleteButton \<and> \<not> disabled p \<and> \<not> isFocused s then focus p else [])"

text \<open>
  A sequence of clicks under unchanged props. Each click is handled in the state the
  previous one left once the widget has rendered again and run its layout effect; the
  result is the final state and the calls the click handlers made.
\<close>

fun clicks :: "'v Props \<Rightarrow> State \<Rightarrow> bool list \<Rightarrow> State \<times> 'v effect list" where
  "clicks p s [] = (s, [])"
| "clicks p s (t # ts) =
     (let es = Container_onClick p s t;
          r = clicks p (rerender (Some (p, s)) False p (commit s es)) ts
      in (fst r, es @ snd r))"

definition Input_onChange :: "'v Props \<Rightarrow> string \<Rightarrow> 'v effect list" where
  "Input_onChange p v =
     fire (onChange p) (Call_onChange v) @
     fire (onChangeInput p) (Call_onChangeInput v) @
     (if \<not> isInputControlled p then [SetUncontrolledInputValue v] else [])"

definition onCompositionStart :: "'v effect list" where
  "onCompositionStart = [SetIsComposing True]"

definition onCompositionEnd :: "'v effect list" where
  "onCompositionEnd = [SetIsComposing False]"

section \<open>The text entry as rendered\<close>

text \<open>
  What \<^verbatim>\<open>useListBox\<close> returns to the render, as far as the text entry uses it: the
  active option (\<open>None\<close> for \<^verbatim>\<open>null\<close>) with its identifier, and the identifier of the
  listbox. The hook itself is not part of the component.
\<close>

record ActiveOption =
  option_id :: string

record ListBox =
  activeOption :: "ActiveOption option"
  listBoxId :: string

record InputAttrs =
  attr_type :: string
  attr_name :: "string option"
  attr_value :: string
  attr_disabled :: bool
  autoComplete :: string
  tabIndex :: int
  role :: string
  aria_activedescendant :: "string option"
  aria_controls :: string
  aria_haspopup :: string
  aria_expanded :: bool
  aria_invalid :: "bool option"
  aria_disabled :: bool
  aria_autocomplete :: string

definition Input_attrs :: "'v Props \<Rightarrow> State \<Rightarrow> ListBox \<Rightarrow> string \<Rightarrow> InputAttrs" where
  "Input_attrs p s lb selectedListId =
     \<lparr>attr_type = ''text'',
      attr_name = name p,
      attr_value = inputValue p s,
      attr_disabled = disabled p,
      autoComplete = ''off'',
      tabIndex = 0,
      role = ''combobox'',
      aria_activedescendant = map_option option_id (activeOption lb),
      aria_controls = listBoxId lb @ '' '' @ selectedListId,
      aria_haspopup = ''listbox'',
      aria_expanded = isFocused s,
      aria_invalid = (if error p then Some True else None),
      aria_disabled = disabled p,
      aria_autocomplete = ''list''\<rparr>"

text \<open>
  The identifiers an attribute of type "ID reference list" refers to: the fields between
  spaces, empty fields dropped.
\<close>

fun fields :: "string \<Rightarrow> string list" where
  "fields [] = [[]]"
| "fields (c # cs) =
     (if c = CHR '' '' then [] # fields cs
      else (case fields cs of [] \<Rightarrow> [[c]] | w # ws \<Rightarrow> (c # w) # ws))"

definition idrefs :: "string \<Rightarrow> string list" where
  "idrefs a = filter (\<lambda>w. w \<noteq> []) (fields a)"

section \<open>A host for the examples\<close>

text \<open>
  The props of a host that passes every callback and leaves every other prop at its
  default (not disabled, no error, uncontrolled text), with the given selection.
\<close>

abbreviation hostProps :: "'v ComboBoxItem list \<Rightarrow> 'v Props" where
  "hostProps xs \<equiv>
     \<lparr>selectedItems = xs, name = None, disabled = False, error = False,
      controlledInputValue = None, onChange = True, onChangeInput = True, onDelete = True,
      onSelect = True, onChangeSelected = True, onFocus = True, onBlur = True\<rparr>"

section \<open>Auxiliary facts\<close>

lemma find_first_match:
  "\<forall>x \<in> set pre. \<not> P x \<Longrightarrow> P m \<Longrightarrow> find P (pre @ m # post) = Some m"
  by (induction pre) auto

lemma onChangeSelectedArgs_append:
  "onChangeSelectedArgs (es @ fs) = onChangeSelectedArgs es @ onChangeSelectedArgs fs"
  by (induction es rule: onChangeSelectedArgs.induct) auto

lemma onChangeSelectedArgs_handleDelete:
  "onChangeSelectedArgs (handleDelete p x) =
     (if onChangeSelected p
      then [filter (\<lambda>e. \<not> (label e = label x \<and> value e = value x)) (selectedItems p)]
      else [])"
  by (simp add: handleDelete_def fire_def)

lemma dispatchFocus_without_InputFocus:
  "InputFocus \<notin> set es \<Longrightarrow> dispatchFocus h es = es"
  by (induction h es rule: dispatchFocus.induct) auto

lemma Input_onFocus_focused:
  "isFocused s \<Longrightarrow> Input_onFocus p s = [ResetDeletionButtonFocus]"
  by (simp add: Input_onFocus_def)

lemma handleInputKeyDown_Escape:
  "key = ''Escape'' \<or> key = ''Esc'' \<Longrightarrow> handleInputKeyDown key = []"
  by (auto simp: handleInputKeyDown_def)

lemma fields_no_space:
  "CHR '' '' \<notin> set w \<Longrightarrow> fields w = [w]"
  by (induction w) auto

lemma fields_append_space:
  "CHR '' '' \<notin> set a \<Longrightarrow> fields (a @ CHR '' '' # b) = a # fields b"
  by (induction a) auto

lemma idrefs_pair:
  assumes "a \<noteq> []" "b \<noteq> []" "CHR '' '' \<notin> set a" "CHR '' '' \<notin> set b"
  shows "idrefs (a @ CHR '' '' # b) = [a, b]"
  using assms by (simp add: idrefs_def fields_append_space fields_no_space)

section \<open>The selection toggle\<close>

text \<open>
  C1, as the code has it. The toggle looks the candidate up with \<^verbatim>\<open>find\<close>, so the entry
  whose flag decides is the first entry of \<open>selectedItems\<close> with the candidate's label and
  value. If that entry's \<open>deletable\<close> flag is not explicitly false, the toggle calls
  \<^verbatim>\<open>onDelete\<close> with the candidate and then \<^verbatim>\<open>onChangeSelected\<close> with \<open>selectedItems\<close> less
  every entry whose label and value both equal the candidate's (each callback when the
  host supplied it). Only label and value are compared: the candidate need not be the
  stored entry.
\<close>

theorem handleSelect_deletes_first_match:
  assumes "selectedItems p = pre @ m # post"
    and "\<forall>e \<in> set pre. \<not> (label e = label c \<and> value e = value c)"
    and "label m = label c \<and> value m = value c"
    and "deletable m \<noteq> Some False"
  shows "handleSelect p c =
           fire (onDelete p) (Call_onDelete c) @
           fire (onChangeSelected p)
             (Call_onChangeSelected
                (filter (\<lambda>e. \<not> (label e = label c \<and> value e = value c)) (selectedItems p)))"
proof -
  have "find (\<lambda>item. label item = label c \<and> value item = value c) (selectedItems p) = Some m"
    using assms(1-3) by (simp add: find_first_match)
  with assms(4) show ?thesis
    by (simp add: handleSelect_def handleDelete_def)
qed

text \<open>
  The candidate carries no flag, the matched entry carries \<open>deletable = true\<close>, and a
  second entry with the same label and value stands later in the array: both go.
\<close>

theorem handleSelect_deletes_first_match_witness:
  "handleSelect
     (hostProps
        [\<lparr>label = ''Banana'', value = ''b'', deletable = None\<rparr>,
         \<lparr>label = ''Apple'', value = ''a'', deletable = Some True\<rparr>,
         \<lparr>label = ''Apple'', value = ''a'', deletable = None\<rparr>])
     \<lparr>label = ''Apple'', value = ''a'', deletable = None\<rparr> =
   [Call_onDelete \<lparr>label = ''Apple'', value = ''a'', deletable = None\<rparr>,
    Call_onChangeSelected [\<lparr>label = ''Banana'', value = ''b'', deletable = None\<rparr>]]"
  using handleSelect_deletes_first_match
    [of "hostProps
           [\<lparr>label = ''Banana'', value = ''b'', deletable = None\<rparr>,
            \<lparr>label = ''Apple'', value = ''a'', deletable = Some True\<rparr>,
            \<lparr>label = ''Apple'', value = ''a'', deletable = None\<rparr>]"
        "[\<lparr>label = ''Banana'', value = ''b'', deletable = None\<rparr>]"
        "\<lparr>label = ''Apple'', value = ''a'', deletable = Some True\<rparr>"
        "[\<lparr>label = ''Apple'', value = ''a'', deletable = None\<rparr>]"
        "\<lparr>label = ''Apple'', value = ''a'', deletable = None\<rparr>"]
  by (simp add: fire_def)

text \<open>
  C1 as worded asks only for some matching entry whose flag is not false. With a pinned
  entry (\<open>deletable = false\<close>) in front of an unpinned one of the same label and value,
  such an entry exists, yet \<^verbatim>\<open>find\<close> returns the pinned one and the toggle calls nothing.
\<close>

theorem handleSelect_some_match_counterexample:
  "\<lparr>label = ''Apple'', value = ''a'', deletable = None\<rparr>
     \<in> set (selectedItems
          (hostProps
             [\<lparr>label = ''Apple'', value = ''a'', deletable = Some False\<rparr>,
              \<lparr>label = ''Apple'', value = ''a'', deletable = None\<rparr>])) \<and>
   deletable \<lparr>label = ''Apple'', value = ''a'', deletable = None\<rparr> \<noteq> Some False \<and>
   handleSelect
     (hostProps
        [\<lparr>label = ''Apple'', value = ''a'', deletable = Some False\<rparr>,
         \<lparr>label = ''Apple'', value = ''a'', deletable = None\<rparr>])
     \<lparr>label = ''Apple'', value = ''a'', deletable = None\<rparr> = [] \<and>
   handleSelect
     (hostProps
        [\<lparr>label = ''Apple'', value = ''a'', deletable = Some False\<rparr>,
         \<lparr>label = ''Apple'', value = ''a'', deletable = None\<rparr>])
     \<lparr>label = ''Apple'', value = ''a'', deletable = None\<rparr> \<noteq>
   [Call_onDelete \<lparr>label = ''Apple'', value = ''a'', deletable = None\<rparr>,
    Call_onChangeSelected []]"
  by (simp add: handleSelect_def)

text \<open>
  C2. If no entry of \<open>selectedItems\<close> has both the candidate's label and the candidate's
  value, the toggle calls \<^verbatim>\<open>onSelect\<close> with the candidate and then \<^verbatim>\<open>onChangeSelected\<close> with
  \<open>selectedItems\<close> followed by the candidate, nothing else changed (each callback when
  the host supplied it).
\<close>

theorem handleSelect_appends:
  assumes "\<forall>e \<in> set (selectedItems p). \<not> (label e = label c \<and> value e = value c)"
  shows "handleSelect p c =
           fire (onSelect p) (Call_onSelect c) @
           fire (onChangeSelected p) (Call_onChangeSelected (selectedItems p @ [c]))"
proof -
  have "find (\<lambda>item. label item = label c \<and> value item = value c) (selectedItems p) = None"
    using assms by (simp add: find_None_iff)
  then show ?thesis
    by (simp add: handleSelect_def)
qed

text \<open>An entry with the candidate's label but another value does not count as selected.\<close>

theorem handleSelect_appends_witness:
  "handleSelect
     (hostProps
        [\<lparr>label = ''Apple'', value = ''a'', deletable = None\<rparr>,
         \<lparr>label = ''Banana'', value = ''x'', deletable = Some False\<rparr>])
     \<lparr>label = ''Banana'', value = ''b'', deletable = None\<rparr> =
   [Call_onSelect \<lparr>label = ''Banana'', value = ''b'', deletable = None\<rparr>,
    Call_onChangeSelected
      [\<lparr>label = ''Apple'', value = ''a'', deletable = None\<rparr>,
       \<lparr>label = ''Banana'', value = ''x'', deletable = Some False\<rparr>,
       \<lparr>label = ''Banana'', value = ''b'', deletable = None\<rparr>]]"
  using handleSelect_appends
    [of "hostProps
           [\<lparr>label = ''Apple'', value = ''a'', deletable = None\<rparr>,
            \<lparr>label = ''Banana'', value = ''x'', deletable = Some False\<rparr>]"
        "\<lparr>label = ''Banana'', value = ''b'', deletable = None\<rparr>"]
  by (simp add: fire_def)

text \<open>
  C3, as the code has it. The entry whose flag decides is the one \<^verbatim>\<open>find\<close> returns: the
  first entry of \<open>selectedItems\<close> with the candidate's label and value. If that entry has
  \<open>deletable = false\<close>, the toggle does nothing: it calls no callback and no setter, so
  none of \<^verbatim>\<open>onDelete\<close>, \<^verbatim>\<open>onSelect\<close>, \<^verbatim>\<open>onChangeSelected\<close> runs and the state stays as it
  was.
\<close>

theorem handleSelect_pinned_noop:
  assumes "selectedItems p = pre @ m # post"
    and "\<forall>e \<in> set pre. \<not> (label e = label c \<and> value e = value c)"
    and "label m = label c \<and> value m = value c"
    and "deletable m = Some False"
  shows "handleSelect p c = [] \<and> commit s (handleSelect p c) = s"
proof -
  have "find (\<lambda>item. label item = label c \<and> value item = value c) (selectedItems p) = Some m"
    using assms(1-3) by (simp add: find_first_match)
  with assms(4) have "handleSelect p c = []"
    by (simp add: handleSelect_def)
  then show ?thesis
    by (simp add: commit_def)
qed

theorem handleSelect_pinned_noop_witness:
  "handleSelect
     (hostProps
        [\<lparr>label = ''Banana'', value = ''b'', deletable = None\<rparr>,
         \<lparr>label = ''Apple'', value = ''a'', deletable = Some False\<rparr>])
     \<lparr>label = ''Apple'', value = ''a'', deletable = None\<rparr> = [] \<and>
   commit \<lparr>isFocused = True, uncontrolledInputValue = ''Ap'', isComposing = False\<rparr>
     (handleSelect
        (hostProps
           [\<lparr>label = ''Banana'', value = ''b'', deletable = None\<rparr>,
            \<lparr>label = ''Apple'', value = ''a'', deletable = Some False\<rparr>])
        \<lparr>label = ''Apple'', value = ''a'', deletable = None\<rparr>) =
   \<lparr>isFocused = True, uncontrolledInputValue = ''Ap'', isComposing = False\<rparr>"
  using handleSelect_pinned_noop
    [of "hostProps
           [\<lparr>label = ''Banana'', value = ''b'', deletable = None\<rparr>,
            \<lparr>label = ''Apple'', value = ''a'', deletable = Some False\<rparr>]"
        "[\<lparr>label = ''Banana'', value = ''b'', deletable = None\<rparr>]"
        "\<lparr>label = ''Apple'', value = ''a'', deletable = Some False\<rparr>"
        "[]"
        "\<lparr>label = ''Apple'', value = ''a'', deletable = None\<rparr>"
        "\<lparr>isFocused = True, uncontrolledInputValue = ''Ap'', isComposing = False\<rparr>"]
  by (simp add: commit_def)

text \<open>
  C3 as worded asks only that the candidate be selected and that an entry matching it be
  pinned. With an unpinned entry in front of a pinned one of the same label and value,
  \<^verbatim>\<open>find\<close> returns the unpinned one: the toggle deletes, and the array it hands over has
  lost the pinned entry too.
\<close>

theorem handleSelect_later_pinned_counterexample:
  "\<lparr>label = ''Apple'', value = ''a'', deletable = Some False\<rparr>
     \<in> set (selectedItems
          (hostProps
             [\<lparr>label = ''Apple'', value = ''a'', deletable = None\<rparr>,
              \<lparr>label = ''Apple'', value = ''a'', deletable = Some False\<rparr>])) \<and>
   label \<lparr>label = ''Apple'', value = ''a'', deletable = Some False\<rparr> =
     label \<lparr>label = ''Apple'', value = ''a'', deletable = None\<rparr> \<and>
   value \<lparr>label = ''Apple'', value = ''a'', deletable = Some False\<rparr> =
     value \<lparr>label = ''Apple'', value = ''a'', deletable = None\<rparr> \<and>
   deletable \<lparr>label = ''Apple'', value = ''a'', deletable = Some False\<rparr> = Some False \<and>
   handleSelect
     (hostProps
        [\<lparr>label = ''Apple'', value = ''a'', deletable = None\<rparr>,
         \<lparr>label = ''Apple'', value = ''a'', deletable = Some False\<rparr>])
     \<lparr>label = ''Apple'', value = ''a'', deletable = None\<rparr> =
   [Call_onDelete \<lparr>label = ''Apple'', value = ''a'', deletable = None\<rparr>,
    Call_onChangeSelected []] \<and>
   handleSelect
     (hostProps
        [\<lparr>label = ''Apple'', value = ''a'', deletable = None\<rparr>,
         \<lparr>label = ''Apple'', value = ''a'', deletable = Some False\<rparr>])
     \<lparr>label = ''Apple'', value = ''a'', deletable = None\<rparr> \<noteq> []"
  by (simp add: handleSelect_def handleDelete_def fire_def)

text \<open>
  C4. Let \<open>selectedItems\<close> hold no entry with the option's label and value, and let the
  option's \<open>deletable\<close> flag be unset. Toggling the option hands \<open>selectedItems\<close> followed
  by the option to \<^verbatim>\<open>onChangeSelected\<close>; toggling the same option again, with that array
  as the new \<open>selectedItems\<close>, hands back the original array, element for element.
\<close>

theorem toggle_twice_restores:
  assumes "\<forall>e \<in> set (selectedItems p). \<not> (label e = label c \<and> value e = value c)"
    and "deletable c = None"
    and "onChangeSelected p"
  shows "onChangeSelectedArgs (handleSelect p c) = [selectedItems p @ [c]] \<and>
         onChangeSelectedArgs (handleSelect (p\<lparr>selectedItems := selectedItems p @ [c]\<rparr>) c)
           = [selectedItems p]"
proof -
  let ?match = "\<lambda>item. label item = label c \<and> value item = value c"
  let ?p' = "p\<lparr>selectedItems := selectedItems p @ [c]\<rparr>"
  have none: "find ?match (selectedItems p) = None"
    using assms(1) by (simp add: find_None_iff)
  have first: "onChangeSelectedArgs (handleSelect p c) = [selectedItems p @ [c]]"
    using none assms(3)
    by (simp add: handleSelect_def fire_def onChangeSelectedArgs_append)
  have found: "find ?match (selectedItems ?p') = Some c"
    using assms(1) find_first_match [of "selectedItems p" ?match c "[]"] by simp
  have keep: "filter (\<lambda>e. \<not> ?match e) (selectedItems p) = selectedItems p"
    using assms(1) by simp
  have "handleSelect ?p' c = handleDelete ?p' c"
    using found assms(2) by (simp add: handleSelect_def)
  then have "onChangeSelectedArgs (handleSelect ?p' c) = [selectedItems p]"
    using assms(3) keep by (simp add: onChangeSelectedArgs_handleDelete)
  with first show ?thesis by simp
qed

theorem toggle_twice_restores_witness:
  "onChangeSelectedArgs
     (handleSelect (hostProps [\<lparr>label = ''Banana'', value = ''b'', deletable = Some False\<rparr>])
        \<lparr>label = ''Apple'', value = ''a'', deletable = None\<rparr>) =
     [[\<lparr>label = ''Banana'', value = ''b'', deletable = Some False\<rparr>,
       \<lparr>label = ''Apple'', value = ''a'', deletable = None\<rparr>]] \<and>
   onChangeSelectedArgs
     (handleSelect
        (hostProps
           [\<lparr>label = ''Banana'', value = ''b'', deletable = Some False\<rparr>,
            \<lparr>label = ''Apple'', value = ''a'', deletable = None\<rparr>])
        \<lparr>label = ''Apple'', value = ''a'', deletable = None\<rparr>) =
     [[\<lparr>label = ''Banana'', value = ''b'', deletable = Some False\<rparr>]]"
  using toggle_twice_restores
    [of "hostProps [\<lparr>label = ''Banana'', value = ''b'', deletable = Some False\<rparr>]"
        "\<lparr>label = ''Apple'', value = ''a'', deletable = None\<rparr>"]
  by simp

text \<open>
  C9. An item is deleted by a chip's delete button (\<open>handleDelete\<close>) or by the toggle's
  delete branch (\<open>handleSelect\<close> when the entry \<^verbatim>\<open>find\<close> returns is not pinned). Where the
  host supplied \<^verbatim>\<open>onChangeSelected\<close>, either path calls it exactly once, with \<open>selectedItems\<close>
  less every entry that has the item's label and value, the other entries kept in their
  order; so the array holds no entry with that label and value, and duplicates of the
  pair all go at once. Without the callback no array is handed over at all.
\<close>

theorem delete_removes_every_match:
  "(onChangeSelected p \<longrightarrow>
      onChangeSelectedArgs (handleDelete p x) =
        [filter (\<lambda>e. \<not> (label e = label x \<and> value e = value x)) (selectedItems p)] \<and>
      (\<forall>m. find (\<lambda>item. label item = label x \<and> value item = value x) (selectedItems p)
              = Some m \<and> deletable m \<noteq> Some False \<longrightarrow>
           onChangeSelectedArgs (handleSelect p x) =
             [filter (\<lambda>e. \<not> (label e = label x \<and> value e = value x)) (selectedItems p)])) \<and>
   (\<forall>e \<in> set (filter (\<lambda>e. \<not> (label e = label x \<and> value e = value x)) (selectedItems p)).
      \<not> (label e = label x \<and> value e = value x)) \<and>
   (\<forall>ys \<in> set (onChangeSelectedArgs (handleDelete p x)).
      \<forall>e \<in> set ys. \<not> (label e = label x \<and> value e = value x)) \<and>
   (find (\<lambda>item. label item = label x \<and> value item = value x) (selectedItems p) \<noteq> None \<longrightarrow>
      (\<forall>ys \<in> set (onChangeSelectedArgs (handleSelect p x)).
         \<forall>e \<in> set ys. \<not> (label e = label x \<and> value e = value x)))"
proof -
  let ?kept = "filter (\<lambda>e. \<not> (label e = label x \<and> value e = value x)) (selectedItems p)"
  have once: "onChangeSelectedArgs (handleDelete p x) = [?kept]" if "onChangeSelected p"
    using that by (simp add: onChangeSelectedArgs_handleDelete)
  have branch: "handleSelect p x = handleDelete p x"
    if "find (\<lambda>item. label item = label x \<and> value item = value x) (selectedItems p) = Some m"
      and "deletable m \<noteq> Some False" for m
    using that by (simp add: handleSelect_def)
  have none: "\<forall>e \<in> set ?kept. \<not> (label e = label x \<and> value e = value x)"
    by simp
  have del: "\<forall>ys \<in> set (onChangeSelectedArgs (handleDelete p x)).
      \<forall>e \<in> set ys. \<not> (label e = label x \<and> value e = value x)"
    by (simp add: onChangeSelectedArgs_handleDelete)
  have "handleSelect p x = handleDelete p x \<or> handleSelect p x = []"
    if "find (\<lambda>item. label item = label x \<and> value item = value x) (selectedItems p) \<noteq> None"
    using that by (auto simp: handleSelect_def)
  with del have sel: "\<forall>ys \<in> set (onChangeSelectedArgs (handleSelect p x)).
      \<forall>e \<in> set ys. \<not> (label e = label x \<and> value e = value x)"
    if "find (\<lambda>item. label item = label x \<and> value item = value x) (selectedItems p) \<noteq> None"
    using that by auto
  have both: "onChangeSelected p \<longrightarrow>
      onChangeSelectedArgs (handleDelete p x) = [?kept] \<and>
      (\<forall>m. find (\<lambda>item. label item = label x \<and> value item = value x) (selectedItems p)
              = Some m \<and> deletable m \<noteq> Some False \<longrightarrow>
           onChangeSelectedArgs (handleSelect p x) = [?kept])"
  proof (intro impI conjI allI)
    assume "onChangeSelected p"
    then show "onChangeSelectedArgs (handleDelete p x) = [?kept]"
      by (rule once)
  next
    fix m
    assume cb: "onChangeSelected p"
      and m: "find (\<lambda>item. label item = label x \<and> value item = value x) (selectedItems p)
                = Some m \<and> deletable m \<noteq> Some False"
    from m have "handleSelect p x = handleDelete p x"
      using branch [of m] by blast
    with once [OF cb] show "onChangeSelectedArgs (handleSelect p x) = [?kept]"
      by (simp only:)
  qed
  from both none del sel show ?thesis
    by (intro conjI impI) blast+
qed

text \<open>
  Three entries, the first and the last with the deleted item's label and value: each
  path hands over one array, the middle entry alone.
\<close>

theorem delete_removes_every_match_witness:
  "onChangeSelected
     (hostProps
        [\<lparr>label = ''Apple'', value = ''a'', deletable = None\<rparr>,
         \<lparr>label = ''Banana'', value = ''b'', deletable = None\<rparr>,
         \<lparr>label = ''Apple'', value = ''a'', deletable = Some False\<rparr>]) \<and>
   find (\<lambda>item. label item = ''Apple'' \<and> value item = ''a'')
     [\<lparr>label = ''Apple'', value = ''a'', deletable = None\<rparr>,
      \<lparr>label = ''Banana'', value = ''b'', deletable = None\<rparr>,
      \<lparr>label = ''Apple'', value = ''a'', deletable = Some False\<rparr>] =
     Some \<lparr>label = ''Apple'', value = ''a'', deletable = None\<rparr> \<and>
   onChangeSelectedArgs
     (handleDelete
        (hostProps
           [\<lparr>label = ''Apple'', value = ''a'', deletable = None\<rparr>,
            \<lparr>label = ''Banana'', value = ''b'', deletable = None\<rparr>,
            \<lparr>label = ''Apple'', value = ''a'', deletable = Some False\<rparr>])
        \<lparr>label = ''Apple'', value = ''a'', deletable = None\<rparr>) =
     [[\<lparr>label = ''Banana'', value = ''b'', deletable = None\<rparr>]] \<and>
   onChangeSelectedArgs
     (handleSelect
        (hostProps
           [\<lparr>label = ''Apple'', value = ''a'', deletable = None\<rparr>,
            \<lparr>label = ''Banana'', value = ''b'', deletable = None\<rparr>,
            \<lparr>label = ''Apple'', value = ''a'', deletable = Some False\<rparr>])
        \<lparr>label = ''Apple'', value = ''a'', deletable = None\<rparr>) =
     [[\<lparr>label = ''Banana'', value = ''b'', deletable = None\<rparr>]] \<and>
   \<not> (label \<lparr>label = ''Banana'', value = ''b'', deletable = None\<rparr> = ''Apple'' \<and>
      value \<lparr>label = ''Banana'', value = ''b'', deletable = None\<rparr> = ''a'')"
  using delete_removes_every_match
    [of "hostProps
           [\<lparr>label = ''Apple'', value = ''a'', deletable = None\<rparr>,
            \<lparr>label = ''Banana'', value = ''b'', deletable = None\<rparr>,
            \<lparr>label = ''Apple'', value = ''a'', deletable = Some False\<rparr>]"
        "\<lparr>label = ''Apple'', value = ''a'', deletable = None\<rparr>"]
  by (simp add: handleDelete_def handleSelect_def fire_def)

section \<open>Focused, blurred and the keyboard\<close>

text \<open>
  C5. Escape (\<^verbatim>\<open>Escape\<close> or \<^verbatim>\<open>Esc\<close>) pressed while the widget is focused and no
  composition is in progress: the widget becomes blurred, the focus coordinator is reset
  (\<open>ResetDeletionButtonFocus\<close>) and \<^verbatim>\<open>onBlur\<close> is called exactly once (when the host
  supplied it; the listbox key handler that runs afterwards is never handed \<^verbatim>\<open>onBlur\<close>).
  Pressed while the widget is already blurred, Escape calls \<^verbatim>\<open>onBlur\<close> zero times and
  leaves the state as it was.
\<close>

theorem escape_blurs_once:
  assumes "key = ''Escape'' \<or> key = ''Esc''"
  shows "(isFocused s \<and> \<not> isComposing s \<longrightarrow>
            onKeyDown p s t key =
              [StopPropagation] @ fire (onBlur p) Call_onBlur @
              [SetIsFocused False, ResetDeletionButtonFocus, HandleListBoxKeyDown key] \<and>
            \<not> isFocused (commit s (onKeyDown p s t key)) \<and>
            count_list (onKeyDown p s t key) Call_onBlur = (if onBlur p then 1 else 0)) \<and>
         (\<not> isFocused s \<longrightarrow>
            count_list (onKeyDown p s t key) Call_onBlur = 0 \<and>
            commit s (onKeyDown p s t key) = s)"
proof -
  have "InputFocus \<notin> set (handleKeyDown p s key)"
    using assms by (auto simp: handleKeyDown_def blur_def fire_def)
  then have inp: "onKeyDown p s t key = handleKeyDown p s key"
    using assms
    by (simp add: onKeyDown_def handleInputKeyDown_Escape dispatchFocus_without_InputFocus)
  have focused: "handleKeyDown p s key =
      [StopPropagation] @ fire (onBlur p) Call_onBlur @
      [SetIsFocused False, ResetDeletionButtonFocus, HandleListBoxKeyDown key]"
    if "isFocused s" "\<not> isComposing s"
    using that assms by (auto simp: handleKeyDown_def blur_def)
  have blurred: "handleKeyDown p s key = [] \<or>
      handleKeyDown p s key = [StopPropagation, HandleListBoxKeyDown key]"
    if "\<not> isFocused s"
    using that assms by (auto simp: handleKeyDown_def blur_def)
  have a: "\<not> isFocused (commit s (handleKeyDown p s key)) \<and>
      count_list (handleKeyDown p s key) Call_onBlur = (if onBlur p then 1 else 0)"
    if "isFocused s" "\<not> isComposing s"
    using focused [OF that] by (simp add: commit_def fire_def)
  have b: "count_list (handleKeyDown p s key) Call_onBlur = 0 \<and>
      commit s (handleKeyDown p s key) = s"
    if "\<not> isFocused s"
    using blurred [OF that] by (auto simp: commit_def)
  show ?thesis
    using inp focused a b by simp
qed

theorem escape_blurs_once_witness:
  "onKeyDown (hostProps ([] :: string ComboBoxItem list))
      \<lparr>isFocused = True, uncontrolledInputValue = ''Ap'', isComposing = False\<rparr> True ''Escape'' =
     [StopPropagation, Call_onBlur, SetIsFocused False, ResetDeletionButtonFocus,
      HandleListBoxKeyDown ''Escape''] \<and>
   \<not> isFocused
       (commit \<lparr>isFocused = True, uncontrolledInputValue = ''Ap'', isComposing = False\<rparr>
          (onKeyDown (hostProps ([] :: string ComboBoxItem list))
             \<lparr>isFocused = True, uncontrolledInputValue = ''Ap'', isComposing = False\<rparr> True
             ''Escape'')) \<and>
   count_list
     (onKeyDown (hostProps ([] :: string ComboBoxItem list))
        \<lparr>isFocused = True, uncontrolledInputValue = ''Ap'', isComposing = False\<rparr> True ''Escape'')
     Call_onBlur = 1 \<and>
   count_list (onKeyDown (hostProps ([] :: string ComboBoxItem list)) initialState True ''Escape'') Call_onBlur = 0"
  using escape_blurs_once
      [of "''Escape''" "\<lparr>isFocused = True, uncontrolledInputValue = ''Ap'', isComposing = False\<rparr>"
          "hostProps ([] :: string ComboBoxItem list)" True]
    escape_blurs_once [of "''Escape''" initialState "hostProps ([] :: string ComboBoxItem list)" True]
  by (simp add: fire_def initialState_def commit_def)

text \<open>
  C6. While a composition is in progress (\<open>isComposing\<close>, set by \<open>onCompositionStart\<close>
  and cleared by \<open>onCompositionEnd\<close>), \<open>handleKeyDown\<close> does nothing for any key: no
  blur, no move of the deletion-button focus, no call of the listbox key handler, no
  callback, no setter. Of the whole delivery of the key event only the text entry's own
  \<^verbatim>\<open>preventDefault\<close> on the up and down arrows is left, and the state is unchanged.
\<close>

theorem composing_suppresses_keys:
  fixes p :: "'v Props"
  assumes "isComposing s"
  shows "handleKeyDown p s key = [] \<and>
         set (onKeyDown p s t key) \<subseteq> {PreventDefault} \<and>
         commit s (onKeyDown p s t key) = s \<and>
         \<not> isComposing (commit s (onCompositionEnd :: 'v effect list))"
proof -
  have h: "handleKeyDown p s key = []"
    using assms by (simp add: handleKeyDown_def)
  have "onKeyDown p s t key = [] \<or> onKeyDown p s t key = [PreventDefault]"
    using h by (simp add: onKeyDown_def handleInputKeyDown_def)
  then show ?thesis
    using h by (auto simp: commit_def onCompositionEnd_def)
qed

theorem composing_suppresses_keys_witness:
  "isComposing (commit \<lparr>isFocused = True, uncontrolledInputValue = ''k'', isComposing = False\<rparr>
      (onCompositionStart :: string effect list)) \<and>
   handleKeyDown (hostProps [\<lparr>label = ''Apple'', value = ''a'', deletable = None\<rparr>])
      \<lparr>isFocused = True, uncontrolledInputValue = ''k'', isComposing = True\<rparr> ''Escape'' = [] \<and>
   commit \<lparr>isFocused = True, uncontrolledInputValue = ''k'', isComposing = True\<rparr>
     (onKeyDown (hostProps [\<lparr>label = ''Apple'', value = ''a'', deletable = None\<rparr>])
        \<lparr>isFocused = True, uncontrolledInputValue = ''k'', isComposing = True\<rparr> True ''Escape'') =
     \<lparr>isFocused = True, uncontrolledInputValue = ''k'', isComposing = True\<rparr>"
  using composing_suppresses_keys
    [of "\<lparr>isFocused = True, uncontrolledInputValue = ''k'', isComposing = True\<rparr>"
        "hostProps [\<lparr>label = ''Apple'', value = ''a'', deletable = None\<rparr>]" "''Escape''" True]
  by (simp add: onCompositionStart_def commit_def)

text \<open>
  C7. A render in which the widget is focused, following one in which it was blurred,
  runs the layout effect (its dependency \<open>isFocused\<close> changed). If the \<^verbatim>\<open>inputValue\<close> prop
  is undefined the uncontrolled text is cleared to the empty string, which is then the
  displayed value; if the prop is defined, the displayed value and the stored
  uncontrolled text are what they were, and where the host passes the same value as in
  the blurred render the displayed value is the one the blurred render showed.
\<close>

theorem entering_focused_clears_uncontrolled_text:
  assumes "\<not> isFocused s0" and "isFocused s"
  shows "(controlledInputValue p = None \<longrightarrow>
            uncontrolledInputValue (rerender (Some (p0, s0)) r p s) = '''' \<and>
            inputValue p (rerender (Some (p0, s0)) r p s) = '''') \<and>
         (controlledInputValue p \<noteq> None \<longrightarrow>
            inputValue p (rerender (Some (p0, s0)) r p s) = inputValue p s \<and>
            uncontrolledInputValue (rerender (Some (p0, s0)) r p s) = uncontrolledInputValue s \<and>
            (controlledInputValue p0 = controlledInputValue p \<longrightarrow>
               inputValue p (rerender (Some (p0, s0)) r p s) = inputValue p0 s0))"
proof -
  have run: "useLayoutEffect (Some (p0, s0)) r p s = layoutEffect p s"
    using assms by (simp add: useLayoutEffect_def)
  have unc: "rerender (Some (p0, s0)) r p s = s\<lparr>uncontrolledInputValue := ''''\<rparr>"
    if "controlledInputValue p = None"
    using that assms(2)
    by (simp add: rerender_def run layoutEffect_def isInputControlled_def commit_def)
  have con: "rerender (Some (p0, s0)) r p s = s"
    if "controlledInputValue p \<noteq> None"
    using that assms(2)
    by (simp add: rerender_def run layoutEffect_def isInputControlled_def commit_def)
  show ?thesis
    using unc con by (auto simp: inputValue_def)
qed

text \<open>
  A click focuses a blurred, uncontrolled widget and the following render clears the
  text; under a controlled value \<^verbatim>\<open>Ba\<close> the displayed value stays \<^verbatim>\<open>Ba\<close>.
\<close>

theorem entering_focused_clears_uncontrolled_text_witness:
  "isFocused
     (commit \<lparr>isFocused = False, uncontrolledInputValue = ''Ap'', isComposing = False\<rparr>
        (Container_onClick (hostProps ([] :: string ComboBoxItem list))
           \<lparr>isFocused = False, uncontrolledInputValue = ''Ap'', isComposing = False\<rparr> False)) \<and>
   inputValue (hostProps ([] :: string ComboBoxItem list))
     (rerender
        (Some (hostProps ([] :: string ComboBoxItem list),
               \<lparr>isFocused = False, uncontrolledInputValue = ''Ap'', isComposing = False\<rparr>))
        False (hostProps ([] :: string ComboBoxItem list))
        (commit \<lparr>isFocused = False, uncontrolledInputValue = ''Ap'', isComposing = False\<rparr>
           (Container_onClick (hostProps ([] :: string ComboBoxItem list))
              \<lparr>isFocused = False, uncontrolledInputValue = ''Ap'', isComposing = False\<rparr> False))) =
     '''' \<and>
   inputValue ((hostProps ([] :: string ComboBoxItem list))\<lparr>controlledInputValue := Some ''Ba''\<rparr>)
     (rerender
        (Some ((hostProps ([] :: string ComboBoxItem list))\<lparr>controlledInputValue := Some ''Ba''\<rparr>,
               \<lparr>isFocused = False, uncontrolledInputValue = ''Ap'', isComposing = False\<rparr>))
        False ((hostProps ([] :: string ComboBoxItem list))\<lparr>controlledInputValue := Some ''Ba''\<rparr>)
        \<lparr>isFocused = True, uncontrolledInputValue = ''Ap'', isComposing = False\<rparr>) =
     ''Ba''"
  using entering_focused_clears_uncontrolled_text
      [of "\<lparr>isFocused = False, uncontrolledInputValue = ''Ap'', isComposing = False\<rparr>"
          "commit \<lparr>isFocused = False, uncontrolledInputValue = ''Ap'', isComposing = False\<rparr>
             (Container_onClick (hostProps ([] :: string ComboBoxItem list))
                \<lparr>isFocused = False, uncontrolledInputValue = ''Ap'', isComposing = False\<rparr> False)"
          "hostProps ([] :: string ComboBoxItem list)" "hostProps ([] :: string ComboBoxItem list)" False]
    entering_focused_clears_uncontrolled_text
      [of "\<lparr>isFocused = False, uncontrolledInputValue = ''Ap'', isComposing = False\<rparr>"
          "\<lparr>isFocused = True, uncontrolledInputValue = ''Ap'', isComposing = False\<rparr>"
          "(hostProps ([] :: string ComboBoxItem list))\<lparr>controlledInputValue := Some ''Ba''\<rparr>"
          "(hostProps ([] :: string ComboBoxItem list))\<lparr>controlledInputValue := Some ''Ba''\<rparr>" False]
  by (simp add: Container_onClick_def focus_def fire_def commit_def inputValue_def)

section \<open>The accessibility attributes of the text entry\<close>

text \<open>
  C8. In every rendered state the text entry has \<^verbatim>\<open>role=combobox\<close> and
  \<^verbatim>\<open>aria-haspopup=listbox\<close>; \<^verbatim>\<open>aria-expanded\<close> is the focused state;
  \<^verbatim>\<open>aria-activedescendant\<close> is the active option's identifier, absent when there is no
  active option; \<^verbatim>\<open>aria-controls\<close> is the listbox identifier, a space and the identifier
  of the list of selected chips, so that (identifiers being non-empty and free of spaces)
  it refers to exactly these two elements.
\<close>

theorem input_aria_contract:
  "role (Input_attrs p s lb sid) = ''combobox'' \<and>
   aria_haspopup (Input_attrs p s lb sid) = ''listbox'' \<and>
   aria_expanded (Input_attrs p s lb sid) = isFocused s \<and>
   aria_activedescendant (Input_attrs p s lb sid) =
     (case activeOption lb of None \<Rightarrow> None | Some opt \<Rightarrow> Some (option_id opt)) \<and>
   aria_controls (Input_attrs p s lb sid) = listBoxId lb @ '' '' @ sid \<and>
   (listBoxId lb \<noteq> [] \<and> sid \<noteq> [] \<and> CHR '' '' \<notin> set (listBoxId lb) \<and> CHR '' '' \<notin> set sid \<longrightarrow>
      idrefs (aria_controls (Input_attrs p s lb sid)) = [listBoxId lb, sid])"
  by (simp add: Input_attrs_def idrefs_pair split: option.split)

theorem input_aria_contract_witness:
  "aria_activedescendant
     (Input_attrs (hostProps ([] :: string ComboBoxItem list))
        \<lparr>isFocused = True, uncontrolledInputValue = '''', isComposing = False\<rparr>
        \<lparr>activeOption = Some \<lparr>option_id = ''id-7''\<rparr>, listBoxId = ''id-1''\<rparr> ''id-2'') =
     Some ''id-7'' \<and>
   aria_controls
     (Input_attrs (hostProps ([] :: string ComboBoxItem list))
        \<lparr>isFocused = True, uncontrolledInputValue = '''', isComposing = False\<rparr>
        \<lparr>activeOption = Some \<lparr>option_id = ''id-7''\<rparr>, listBoxId = ''id-1''\<rparr> ''id-2'') =
     ''id-1 id-2'' \<and>
   idrefs
     (aria_controls
        (Input_attrs (hostProps ([] :: string ComboBoxItem list))
           \<lparr>isFocused = True, uncontrolledInputValue = '''', isComposing = False\<rparr>
           \<lparr>activeOption = Some \<lparr>option_id = ''id-7''\<rparr>, listBoxId = ''id-1''\<rparr> ''id-2'')) =
     [''id-1'', ''id-2'']"
  using input_aria_contract
    [of "hostProps ([] :: string ComboBoxItem list)"
        "\<lparr>isFocused = True, uncontrolledInputValue = '''', isComposing = False\<rparr>"
        "\<lparr>activeOption = Some \<lparr>option_id = ''id-7''\<rparr>, listBoxId = ''id-1''\<rparr>" "''id-2''"]
  by (simp add: idrefs_def)

section \<open>Clicks on a disabled widget\<close>

text \<open>
  C10. While \<^verbatim>\<open>disabled\<close> is true the container's click handler does nothing, whatever
  the click's target: over any sequence of clicks the state stays as it was, so a
  blurred widget stays blurred, and \<^verbatim>\<open>onFocus\<close> is never called.
\<close>

theorem disabled_click_never_focuses:
  assumes "disabled p"
  shows "Container_onClick p s t = [] \<and>
         clicks p s ts = (s, []) \<and>
         (\<not> isFocused s \<longrightarrow> \<not> isFocused (fst (clicks p s ts)) \<and>
            Call_onFocus \<notin> set (snd (clicks p s ts)))"
proof -
  have one: "Container_onClick p s' t' = []" for s' t'
    using assms by (simp add: Container_onClick_def)
  have "clicks p s ts = (s, [])"
    by (induction ts arbitrary: s)
      (simp_all add: one commit_def rerender_def useLayoutEffect_def)
  then show ?thesis
    using one by simp
qed

text \<open>Three clicks on a disabled widget, and for contrast one click on an enabled one.\<close>

theorem disabled_click_never_focuses_witness:
  "Container_onClick ((hostProps ([] :: string ComboBoxItem list))\<lparr>disabled := True\<rparr>)
     initialState False = [] \<and>
   clicks ((hostProps ([] :: string ComboBoxItem list))\<lparr>disabled := True\<rparr>) initialState
     [False, True, False] = (initialState, []) \<and>
   \<not> isFocused initialState \<and>
   clicks (hostProps ([] :: string ComboBoxItem list)) initialState [False] =
     (\<lparr>isFocused = True, uncontrolledInputValue = '''', isComposing = False\<rparr>,
      [Call_onFocus, SetIsFocused True])"
  using disabled_click_never_focuses
    [of "(hostProps ([] :: string ComboBoxItem list))\<lparr>disabled := True\<rparr>" initialState False
        "[False, True, False]"]
  by (simp add: initialState_def Container_onClick_def focus_def fire_def commit_def
      rerender_def useLayoutEffect_def layoutEffect_def isInputControlled_def)

end
